theory Spec2Isabelle
  imports Complex_Main
begin

section \<open>Numbers\<close>

text \<open>
  The TypeScript sources compute with the JavaScript type \<^verbatim>\<open>number\<close>. Finite numbers are
  modelled by \<^typ>\<open>real\<close>. The cost model starts its running minimum at
  \<^verbatim>\<open>Infinity\<close>, so that one variable ranges over the reals extended by a top element.
\<close>

datatype jsnum = Finite real | Infinity

text \<open>\<^verbatim>\<open>Math.min(x, y)\<close> on a possibly infinite first argument.\<close>

fun js_min :: "jsnum \<Rightarrow> jsnum \<Rightarrow> jsnum" where
  "js_min Infinity y = y"
| "js_min (Finite a) Infinity = Finite a"
| "js_min (Finite a) (Finite b) = Finite (min a b)"

text \<open>\<^verbatim>\<open>x <= r\<close> for a possibly infinite \<^verbatim>\<open>x\<close> and a finite bound.\<close>

fun js_le :: "jsnum \<Rightarrow> real \<Rightarrow> bool" where
  "js_le Infinity r = False"
| "js_le (Finite a) r = (a \<le> r)"

text \<open>
  \<^verbatim>\<open>Math.atan2(y, x)\<close>: the angle of the point \<open>(x, y)\<close>, in \<open>(-pi, pi]\<close>, and
  \<open>0\<close> at the origin.
\<close>

definition atan2 :: "real \<Rightarrow> real \<Rightarrow> real" where
  "atan2 y x =
     (if 0 < x then arctan (y / x)
      else if x < 0 \<and> 0 \<le> y then arctan (y / x) + pi
      else if x < 0 \<and> y < 0 then arctan (y / x) - pi
      else if 0 < y then pi / 2
      else if y < 0 then - (pi / 2)
      else 0)"

section \<open>Great-circle distance\<close>

text \<open>
  \<^verbatim>\<open>calculateDistance\<close> exists twice: exported from the GPS utilities, and private in the
  routing service. Both are embedded, each from its own source text.
\<close>

definition gps_calculateDistance :: "real \<Rightarrow> real \<Rightarrow> real \<Rightarrow> real \<Rightarrow> real" where
  "gps_calculateDistance lat1 lng1 lat2 lng2 =
     (let R = 6371000;
          phi1 = (lat1 * pi) / 180;
          phi2 = (lat2 * pi) / 180;
          dphi = ((lat2 - lat1) * pi) / 180;
          dlam = ((lng2 - lng1) * pi) / 180;
          a = sin (dphi / 2) * sin (dphi / 2)
              + cos phi1 * cos phi2 * sin (dlam / 2) * sin (dlam / 2);
          c = 2 * atan2 (sqrt a) (sqrt (1 - a))
      in R * c)"

definition calculateDistance :: "real \<Rightarrow> real \<Rightarrow> real \<Rightarrow> real \<Rightarrow> real" where
  "calculateDistance lat1 lng1 lat2 lng2 =
     (let R = 6371000;
          phi1 = (lat1 * pi) / 180;
          phi2 = (lat2 * pi) / 180;
          dphi = ((lat2 - lat1) * pi) / 180;
          dlam = ((lng2 - lng1) * pi) / 180;
          a = sin (dphi / 2) * sin (dphi / 2)
              + cos phi1 * cos phi2 * sin (dlam / 2) * sin (dlam / 2);
          c = 2 * atan2 (sqrt a) (sqrt (1 - a))
      in R * c)"

section \<open>Routing service: data model\<close>

record RoutePoint =
  pt_lat :: real
  pt_lng :: real

record Step =
  instruction :: string
  step_distance :: real
  step_duration :: real

record RouteResult =
  coordinates :: "(real \<times> real) list"
  distance :: real
  duration :: real
  steps :: "Step list"

datatype TransportMode = driving | walking | cycling | transit

datatype Credibility = high | medium | low

record Incident =
  inc_id :: string
  inc_lat :: real
  inc_lng :: real
  credibility :: Credibility
  title :: string

section \<open>Incident cost model\<close>

fun INCIDENT_WEIGHTS :: "Credibility \<Rightarrow> real" where
  "INCIDENT_WEIGHTS high = 500000"
| "INCIDENT_WEIGHTS medium = 7000"
| "INCIDENT_WEIGHTS low = 3000"

definition innerZone :: real where "innerZone = 200"
definition middleZone :: real where "middleZone = 400"
definition outerZone :: real where "outerZone = 600"

definition INCIDENT_DETECTION_RADIUS :: real where
  "INCIDENT_DETECTION_RADIUS = 600"

text \<open>
  The inner loop of \<^verbatim>\<open>calculateRouteCost\<close>: the running minimum of the distances from the
  route's points to the incident, starting at \<^verbatim>\<open>Infinity\<close>.
\<close>

definition minDistanceToIncident :: "(real \<times> real) list \<Rightarrow> Incident \<Rightarrow> jsnum" where
  "minDistanceToIncident routeCoordinates incident =
     foldl (\<lambda>m (lat, lng).
              js_min m (Finite (calculateDistance lat lng (inc_lat incident) (inc_lng incident))))
       Infinity routeCoordinates"

text \<open>
  The value of \<^verbatim>\<open>weight\<close> when \<^verbatim>\<open>cost += weight\<close> runs: \<open>0\<close> at first,
  assigned by the gradient chain for a high-credibility incident and from the table otherwise.
\<close>

definition incidentWeight :: "Incident \<Rightarrow> jsnum \<Rightarrow> real" where
  "incidentWeight incident minDistance =
     (if credibility incident = high then
        (if js_le minDistance innerZone then INCIDENT_WEIGHTS high
         else if js_le minDistance middleZone then INCIDENT_WEIGHTS high * 0.5
         else if js_le minDistance outerZone then INCIDENT_WEIGHTS high * 0.2
         else 0)
      else INCIDENT_WEIGHTS (credibility incident))"

record cost_state =
  cost :: real
  incidentsNearRoute :: "string set"

text \<open>One iteration of the loop over the incidents.\<close>

definition costStep :: "(real \<times> real) list \<Rightarrow> cost_state \<Rightarrow> Incident \<Rightarrow> cost_state" where
  "costStep routeCoordinates s incident =
     (let minDistance = minDistanceToIncident routeCoordinates incident in
      if js_le minDistance INCIDENT_DETECTION_RADIUS then
        (if inc_id incident \<notin> incidentsNearRoute s then
           \<lparr>cost = cost s + incidentWeight incident minDistance,
            incidentsNearRoute = insert (inc_id incident) (incidentsNearRoute s)\<rparr>
         else s)
      else s)"

definition calculateRouteCost ::
    "(real \<times> real) list \<Rightarrow> real \<Rightarrow> real \<Rightarrow> Incident list \<Rightarrow> real" where
  "calculateRouteCost routeCoordinates distance' duration' incidents =
     cost (foldl (costStep routeCoordinates)
             \<lparr>cost = distance' + duration', incidentsNearRoute = {}\<rparr> incidents)"

text \<open>
  The penalties one evaluation charges, in order: a ghost trace with one entry, the
  incident's id and the weight, for each execution of \<^verbatim>\<open>cost += weight\<close>. The first
  argument is the set \<^verbatim>\<open>incidentsNearRoute\<close> before the remaining incidents are visited.
\<close>

fun penaltyEvents ::
    "(real \<times> real) list \<Rightarrow> string set \<Rightarrow> Incident list \<Rightarrow> (string \<times> real) list" where
  "penaltyEvents routeCoordinates seen [] = []"
| "penaltyEvents routeCoordinates seen (incident # rest) =
     (let minDistance = minDistanceToIncident routeCoordinates incident in
      if js_le minDistance INCIDENT_DETECTION_RADIUS then
        (if inc_id incident \<notin> seen then
           (inc_id incident, incidentWeight incident minDistance)
             # penaltyEvents routeCoordinates (insert (inc_id incident) seen) rest
         else penaltyEvents routeCoordinates seen rest)
      else penaltyEvents routeCoordinates seen rest)"

section \<open>Incidents near a route\<close>

text \<open>
  The inner loop of \<^verbatim>\<open>checkRouteForIncidents\<close>: it leaves at the first route point within
  the threshold of the incident, and then the incident is pushed.
\<close>

fun pointWithinThreshold :: "(real \<times> real) list \<Rightarrow> Incident \<Rightarrow> real \<Rightarrow> bool" where
  "pointWithinThreshold [] incident thresholdMeters = False"
| "pointWithinThreshold ((lat, lng) # rest) incident thresholdMeters =
     (if calculateDistance lat lng (inc_lat incident) (inc_lng incident) \<le> thresholdMeters
      then True
      else pointWithinThreshold rest incident thresholdMeters)"

definition checkRouteForIncidents ::
    "(real \<times> real) list \<Rightarrow> Incident list \<Rightarrow> real \<Rightarrow> Incident list" where
  "checkRouteForIncidents routeCoordinates incidents thresholdMeters =
     foldl (\<lambda>nearbyIncidents incident.
              if pointWithinThreshold routeCoordinates incident thresholdMeters
              then nearbyIncidents @ [incident] else nearbyIncidents)
       [] incidents"

text \<open>The call that leaves \<^verbatim>\<open>thresholdMeters\<close> to its default.\<close>

definition checkRouteForIncidents_default ::
    "(real \<times> real) list \<Rightarrow> Incident list \<Rightarrow> Incident list" where
  "checkRouteForIncidents_default routeCoordinates incidents =
     checkRouteForIncidents routeCoordinates incidents 400"

text \<open>
  The selection as the specification words it, for comparison: the incidents within the
  600 m detection radius of the route whose credibility is high.
\<close>

definition spec_avoidanceTriggers ::
    "(real \<times> real) list \<Rightarrow> Incident list \<Rightarrow> Incident list" where
  "spec_avoidanceTriggers routeCoordinates incidents =
     filter (\<lambda>incident. js_le (minDistanceToIncident routeCoordinates incident) 600
                         \<and> credibility incident = high) incidents"

section \<open>Route selection\<close>

text \<open>
  \<^verbatim>\<open>getValhallaRoute\<close> and \<^verbatim>\<open>getOSRMRoute\<close> send one request each to an external
  service and return a route or \<^verbatim>\<open>null\<close>; every failure inside them (status, payload,
  exception) ends in \<^verbatim>\<open>null\<close>. A provider is modelled by the answer it gives to a
  request, and \<^verbatim>\<open>getRoute\<close> returns, next to its result, the requests it sent, in order.
\<close>

type_synonym provider = "RoutePoint \<Rightarrow> RoutePoint \<Rightarrow> TransportMode \<Rightarrow> RouteResult option"

datatype provider_call =
    ValhallaRequest RoutePoint RoutePoint TransportMode
  | OSRMRequest RoutePoint RoutePoint TransportMode

definition getRoute ::
    "provider \<Rightarrow> provider \<Rightarrow> RoutePoint \<Rightarrow> RoutePoint \<Rightarrow> TransportMode \<Rightarrow> Incident list
      \<Rightarrow> RouteResult option \<times> provider_call list" where
  "getRoute getValhallaRoute getOSRMRoute start end' mode incidents =
     (case getValhallaRoute start end' mode of
        None \<Rightarrow>
          (getOSRMRoute start end' mode,
           [ValhallaRequest start end' mode, OSRMRequest start end' mode])
      | Some directRoute \<Rightarrow> (Some directRoute, [ValhallaRequest start end' mode]))"

section \<open>Proof devices and example data\<close>

text \<open>
  The two assignments of the innermost branch of \<^verbatim>\<open>calculateRouteCost\<close> taken together:
  the id enters \<^verbatim>\<open>incidentsNearRoute\<close> and the weight is added to the cost.
\<close>

definition charge :: "string \<Rightarrow> real \<Rightarrow> cost_state \<Rightarrow> cost_state" where
  "charge k w s = \<lparr>cost = cost s + w, incidentsNearRoute = insert k (incidentsNearRoute s)\<rparr>"

text \<open>
  Example inputs. The incidents lie on the meridian of longitude \<open>0\<close>; from the route
  point \<open>(0, 0)\<close>, latitude \<open>0.002\<close> is some 222 m away, \<open>0.004\<close> some 445 m and
  \<open>0.01\<close> some 1112 m.
\<close>

definition incident_at :: "string \<Rightarrow> real \<Rightarrow> Credibility \<Rightarrow> Incident" where
  "incident_at k la c =
     \<lparr>inc_id = k, inc_lat = la, inc_lng = 0, credibility = c, title = ''incident''\<rparr>"

definition two_point_route :: "(real \<times> real) list" where
  "two_point_route = [(0, 0), (0.002, 0)]"

definition example_route :: RouteResult where
  "example_route =
     \<lparr>coordinates = [(0, 0), (0.002, 0)], distance = 1000, duration = 120, steps = []\<rparr>"

definition example_start :: RoutePoint where
  "example_start = \<lparr>pt_lat = 0, pt_lng = 0\<rparr>"

definition example_end :: RoutePoint where
  "example_end = \<lparr>pt_lat = 0.002, pt_lng = 0\<rparr>"

section \<open>Auxiliary facts\<close>

subsection \<open>Distances\<close>

lemma atan2_zero_one: "atan2 0 1 = 0"
  by (simp add: atan2_def)

lemma calculateDistance_same_point: "calculateDistance lat1 lng1 lat1 lng1 = 0"
  by (simp add: calculateDistance_def atan2_zero_one)

lemma pi_ge_three: "3 \<le> pi"
proof -
  have "sin (pi / 6) \<le> pi / 6"
    by (rule sin_x_le_x) simp
  then show ?thesis by (simp add: sin_30)
qed

lemma atan2_sin_cos:
  assumes "0 \<le> t" and "t < pi / 2"
  shows "atan2 (sin t) (cos t) = t"
proof -
  have c: "0 < cos t"
    using assms by (intro cos_gt_zero_pi) auto
  have "arctan (sin t / cos t) = arctan (tan t)"
    by (simp add: tan_def)
  also have "\<dots> = t"
    using assms by (intro arctan_tan) auto
  finally show ?thesis
    using c by (simp add: atan2_def)
qed

lemma calculateDistance_same_meridian:
  assumes "\<bar>lat2 - lat1\<bar> < 180"
  shows "calculateDistance lat1 lng1 lat2 lng1 = 6371000 * (\<bar>lat2 - lat1\<bar> * pi / 180)"
proof -
  define u where "u = ((lat2 - lat1) * pi) / 180 / 2"
  define t where "t = \<bar>u\<bar>"
  have t_eq: "t = \<bar>lat2 - lat1\<bar> * pi / 360"
    by (simp add: t_def u_def abs_mult)
  have t0: "0 \<le> t" by (simp add: t_def)
  have "\<bar>lat2 - lat1\<bar> * pi < 180 * pi"
    using assms by simp
  then have t1: "t < pi / 2"
    by (simp add: t_eq)
  have tpi: "t \<le> pi" using t1 pi_gt_zero by linarith
  have s0: "0 \<le> sin t"
    using t0 tpi by (rule sin_ge_zero)
  have c0: "0 < cos t"
    using t0 t1 by (intro cos_gt_zero_pi) auto
  have a: "sin u * sin u = sin t * sin t"
    by (cases "0 \<le> u") (simp_all add: t_def)
  have sa: "sqrt (sin t * sin t) = sin t"
    using s0 by simp
  have "1 - sin t * sin t = cos t * cos t"
    using sin_cos_squared_add [of t] by (simp add: power2_eq_square)
  then have sc: "sqrt (1 - sin t * sin t) = cos t"
    using c0 by simp
  have "calculateDistance lat1 lng1 lat2 lng1 = 6371000 * (2 * atan2 (sqrt (sin u * sin u)) (sqrt (1 - sin u * sin u)))"
    by (simp add: calculateDistance_def u_def Let_def)
  also have "\<dots> = 6371000 * (2 * t)"
    by (simp only: a sa sc atan2_sin_cos [OF t0 t1])
  finally show ?thesis
    by (simp add: t_eq)
qed

lemma metres_0002: "200 < 6371000 * (\<bar>0.002\<bar> * pi / 180)" "6371000 * (\<bar>0.002\<bar> * pi / 180) \<le> 400"
  using pi_ge_three pi_less_4 by simp_all

lemma metres_0004: "400 < 6371000 * (\<bar>0.004\<bar> * pi / 180)" "6371000 * (\<bar>0.004\<bar> * pi / 180) \<le> 600"
  using pi_ge_three pi_less_4 by simp_all

lemma metres_001: "600 < 6371000 * (\<bar>0.01\<bar> * pi / 180)"
  using pi_ge_three by simp

text \<open>
  The argument of each square root lies between \<open>0\<close> and \<open>1\<close>, where the square
  root of the reals is the one \<^verbatim>\<open>Math.sqrt\<close> computes, and the distance is never negative.
\<close>

lemma haversine_bounds:
  fixes p q l :: real
  defines "a \<equiv> sin ((q - p) / 2) * sin ((q - p) / 2) + cos p * cos q * sin (l / 2) * sin (l / 2)"
  shows "0 \<le> a \<and> a \<le> 1"
proof -
  define s where "s = sin (l / 2) * sin (l / 2)"
  have s0: "0 \<le> s" by (simp add: s_def)
  have "s + cos (l / 2) * cos (l / 2) = 1"
    using sin_cos_squared_add [of "l / 2"] by (simp add: s_def power2_eq_square)
  moreover have "0 \<le> cos (l / 2) * cos (l / 2)" by simp
  ultimately have s1: "s \<le> 1" by linarith
  have cc: "cos p * cos q = (cos (q - p) + cos (q + p)) / 2"
    by (simp add: cos_diff cos_add)
  have "2 * ((q - p) / 2) = q - p" by simp
  then have "cos (q - p) = 1 - 2 * (sin ((q - p) / 2))\<^sup>2"
    using cos_double_sin [of "(q - p) / 2"] by (simp only:)
  then have sp: "sin ((q - p) / 2) * sin ((q - p) / 2) = (1 - cos (q - p)) / 2"
    by (simp add: power2_eq_square)
  have a_eq: "a = 1 / 2 - (1 - s) * cos (q - p) / 2 + s * cos (q + p) / 2"
    unfolding a_def sp by (simp add: cc s_def field_simps)
  have u1: "(1 - s) * cos (q - p) \<le> (1 - s) * 1"
    using s1 by (intro mult_left_mono) auto
  have l1: "(1 - s) * (- 1) \<le> (1 - s) * cos (q - p)"
    using s1 by (intro mult_left_mono) auto
  have u2: "s * cos (q + p) \<le> s * 1"
    using s0 by (intro mult_left_mono) auto
  have l2: "s * (- 1) \<le> s * cos (q + p)"
    using s0 by (intro mult_left_mono) auto
  show ?thesis
    unfolding a_eq using u1 l1 u2 l2 by simp
qed

lemma atan2_nonneg: "0 \<le> y \<Longrightarrow> 0 \<le> x \<Longrightarrow> 0 \<le> atan2 y x"
  by (auto simp: atan2_def)

lemma calculateDistance_nonneg: "0 \<le> calculateDistance lat1 lng1 lat2 lng2"
proof -
  let ?p = "(lat1 * pi) / 180" and ?q = "(lat2 * pi) / 180" and ?l = "((lng2 - lng1) * pi) / 180"
  let ?a = "sin ((?q - ?p) / 2) * sin ((?q - ?p) / 2) + cos ?p * cos ?q * sin (?l / 2) * sin (?l / 2)"
  have b: "0 \<le> ?a \<and> ?a \<le> 1"
    by (rule haversine_bounds)
  have d: "((lat2 - lat1) * pi) / 180 = ?q - ?p"
    by (simp add: algebra_simps diff_divide_distrib)
  have "calculateDistance lat1 lng1 lat2 lng2 = 6371000 * (2 * atan2 (sqrt ?a) (sqrt (1 - ?a)))"
    unfolding calculateDistance_def Let_def d by (rule refl)
  moreover have "0 \<le> atan2 (sqrt ?a) (sqrt (1 - ?a))"
    using b by (intro atan2_nonneg) auto
  ultimately show ?thesis by simp
qed

subsection \<open>The running minimum\<close>

lemma js_le_foldl_min:
  "js_le (foldl (\<lambda>m (lat, lng). js_min m (Finite (f lat lng))) m0 rc) r
     \<longleftrightarrow> js_le m0 r \<or> (\<exists>(lat, lng) \<in> set rc. f lat lng \<le> r)"
proof (induction rc arbitrary: m0)
  case Nil
  show ?case by simp
next
  case (Cons p rest)
  obtain lat lng where p: "p = (lat, lng)" by (cases p)
  have step: "js_le (js_min m0 (Finite (f lat lng))) r \<longleftrightarrow> js_le m0 r \<or> f lat lng \<le> r"
    by (cases m0) (auto simp: min_le_iff_disj)
  show ?case
    by (simp add: p Cons.IH step disj_assoc)
qed

lemma near_iff_some_point:
  "js_le (minDistanceToIncident rc incident) r \<longleftrightarrow>
     (\<exists>(lat, lng) \<in> set rc. calculateDistance lat lng (inc_lat incident) (inc_lng incident) \<le> r)"
  unfolding minDistanceToIncident_def by (simp add: js_le_foldl_min)

lemma minDistance_single_point:
  "minDistanceToIncident [(la, lo)] incident =
     Finite (calculateDistance la lo (inc_lat incident) (inc_lng incident))"
  by (simp add: minDistanceToIncident_def)

lemma incident_at_sel:
  "inc_id (incident_at k la c) = k" "credibility (incident_at k la c) = c"
  "inc_lat (incident_at k la c) = la" "inc_lng (incident_at k la c) = 0"
  by (simp_all add: incident_at_def)

lemma distance_origin_incident_at:
  "\<bar>la\<bar> < 180 \<Longrightarrow>
   calculateDistance 0 0 (inc_lat (incident_at k la c)) (inc_lng (incident_at k la c))
     = 6371000 * (\<bar>la\<bar> * pi / 180)"
  using calculateDistance_same_meridian [of la 0 0] by (simp add: incident_at_def)

lemma minDistance_origin_incident_at:
  "\<bar>la\<bar> < 180 \<Longrightarrow>
   minDistanceToIncident [(0, 0)] (incident_at k la c) = Finite (6371000 * (\<bar>la\<bar> * pi / 180))"
  by (simp add: minDistance_single_point distance_origin_incident_at)

lemma minDistance_two_points_origin:
  "minDistanceToIncident two_point_route (incident_at k 0 c) = Finite 0"
proof -
  have "calculateDistance 0.002 0 0 0 = 6371000 * (\<bar>0 - 0.002\<bar> * pi / 180)"
    by (rule calculateDistance_same_meridian) simp
  moreover have "0 \<le> 6371000 * (\<bar>0 - 0.002\<bar> * pi / 180)"
    by simp
  ultimately have "0 \<le> calculateDistance 0.002 0 0 0"
    by (simp only:)
  then show ?thesis
    by (simp add: minDistanceToIncident_def incident_at_def calculateDistance_same_point
        two_point_route_def)
qed

subsection \<open>The loop over the incidents\<close>

lemma incidentWeight_nonneg: "0 \<le> incidentWeight incident m"
  by (cases "credibility incident") (simp_all add: incidentWeight_def)

lemma costStep_cost_mono: "cost s \<le> cost (costStep rc s incident)"
  by (simp add: costStep_def Let_def incidentWeight_nonneg)

lemma foldl_costStep_cost_mono: "cost s \<le> cost (foldl (costStep rc) s incidents)"
proof (induction incidents arbitrary: s)
  case Nil
  show ?case by simp
next
  case (Cons incident rest)
  have "cost s \<le> cost (costStep rc s incident)"
    by (rule costStep_cost_mono)
  also have "\<dots> \<le> cost (foldl (costStep rc) (costStep rc s incident) rest)"
    by (rule Cons.IH)
  finally show ?case by simp
qed

lemma costStep_skip:
  "\<not> js_le (minDistanceToIncident rc incident) INCIDENT_DETECTION_RADIUS \<Longrightarrow>
   costStep rc s incident = s"
  by (simp add: costStep_def)

lemma costStep_charge:
  "js_le (minDistanceToIncident rc incident) INCIDENT_DETECTION_RADIUS \<Longrightarrow>
   inc_id incident \<notin> incidentsNearRoute s \<Longrightarrow>
   costStep rc s incident =
     charge (inc_id incident) (incidentWeight incident (minDistanceToIncident rc incident)) s"
  by (simp add: costStep_def charge_def)

lemma costStep_seen_subset:
  "incidentsNearRoute (costStep rc s incident) \<subseteq> insert (inc_id incident) (incidentsNearRoute s)"
  by (auto simp: costStep_def Let_def)

lemma foldl_costStep_seen_subset:
  "incidentsNearRoute (foldl (costStep rc) s incidents)
     \<subseteq> incidentsNearRoute s \<union> inc_id ` set incidents"
proof (induction incidents arbitrary: s)
  case Nil
  show ?case by simp
next
  case (Cons incident rest)
  show ?case
    using Cons.IH [of "costStep rc s incident"] costStep_seen_subset [of rc s incident]
    by auto
qed

lemma costStep_charge_commute:
  assumes "inc_id incident \<noteq> k"
  shows "costStep rc (charge k w s) incident = charge k w (costStep rc s incident)"
  using assms by (auto simp: costStep_def charge_def Let_def insert_commute)

lemma foldl_costStep_charge_commute:
  "k \<notin> inc_id ` set incidents \<Longrightarrow>
   foldl (costStep rc) (charge k w s) incidents = charge k w (foldl (costStep rc) s incidents)"
proof (induction incidents arbitrary: s)
  case Nil
  show ?case by simp
next
  case (Cons incident rest)
  then have ne: "inc_id incident \<noteq> k" and rest: "k \<notin> inc_id ` set rest"
    by auto
  show ?case
    by (simp add: costStep_charge_commute [OF ne] Cons.IH [OF rest])
qed

lemma calculateRouteCost_insert_near:
  assumes near: "js_le (minDistanceToIncident rc incident) INCIDENT_DETECTION_RADIUS"
    and fresh: "inc_id incident \<notin> inc_id ` set (pre @ post)"
  shows "calculateRouteCost rc D T (pre @ incident # post) =
         calculateRouteCost rc D T (pre @ post)
           + incidentWeight incident (minDistanceToIncident rc incident)"
proof -
  let ?s0 = "\<lparr>cost = D + T, incidentsNearRoute = {}\<rparr>"
  let ?s1 = "foldl (costStep rc) ?s0 pre"
  let ?w = "incidentWeight incident (minDistanceToIncident rc incident)"
  have "incidentsNearRoute ?s1 \<subseteq> inc_id ` set pre"
    using foldl_costStep_seen_subset [of rc ?s0 pre] by simp
  with fresh have unseen: "inc_id incident \<notin> incidentsNearRoute ?s1"
    by auto
  have post: "inc_id incident \<notin> inc_id ` set post"
    using fresh by auto
  have "foldl (costStep rc) ?s0 (pre @ incident # post) =
        foldl (costStep rc) (charge (inc_id incident) ?w ?s1) post"
    by (simp add: costStep_charge [OF near unseen])
  also have "\<dots> = charge (inc_id incident) ?w (foldl (costStep rc) ?s1 post)"
    by (rule foldl_costStep_charge_commute [OF post])
  finally show ?thesis
    by (simp add: calculateRouteCost_def charge_def)
qed

lemma calculateRouteCost_insert_far:
  assumes far: "\<not> js_le (minDistanceToIncident rc incident) INCIDENT_DETECTION_RADIUS"
  shows "calculateRouteCost rc D T (pre @ incident # post) = calculateRouteCost rc D T (pre @ post)"
  by (simp add: calculateRouteCost_def costStep_skip [OF far])

lemma calculateRouteCost_append_mono:
  "calculateRouteCost rc D T incidents \<le> calculateRouteCost rc D T (incidents @ [incident])"
  by (simp add: calculateRouteCost_def costStep_cost_mono)

subsection \<open>The penalties charged\<close>

lemma penaltyEvents_ids:
  "fst ` set (penaltyEvents rc seen incidents) \<subseteq> inc_id ` set incidents - seen"
proof (induction incidents arbitrary: seen)
  case Nil
  show ?case by simp
next
  case (Cons incident rest)
  show ?case
    using Cons.IH [of seen] Cons.IH [of "insert (inc_id incident) seen"]
    by (auto simp: Let_def)
qed

lemma penaltyEvents_distinct: "distinct (map fst (penaltyEvents rc seen incidents))"
proof (induction incidents arbitrary: seen)
  case Nil
  show ?case by simp
next
  case (Cons incident rest)
  have "inc_id incident \<notin> fst ` set (penaltyEvents rc (insert (inc_id incident) seen) rest)"
    using penaltyEvents_ids [of rc "insert (inc_id incident) seen" rest] by auto
  then show ?case
    by (simp add: Let_def Cons.IH)
qed

lemma foldl_costStep_events:
  "cost (foldl (costStep rc) s incidents) =
     cost s + sum_list (map snd (penaltyEvents rc (incidentsNearRoute s) incidents))"
proof (induction incidents arbitrary: s)
  case Nil
  show ?case by simp
next
  case (Cons incident rest)
  show ?case
    using Cons.IH [of "costStep rc s incident"]
    by (simp add: costStep_def Let_def)
qed

subsection \<open>Incidents near a route\<close>

lemma pointWithinThreshold_iff:
  "pointWithinThreshold rc incident r \<longleftrightarrow>
     (\<exists>(lat, lng) \<in> set rc. calculateDistance lat lng (inc_lat incident) (inc_lng incident) \<le> r)"
  by (induction rc incident r rule: pointWithinThreshold.induct) auto

lemma foldl_push_filter:
  "foldl (\<lambda>acc x. if P x then acc @ [x] else acc) acc0 xs = acc0 @ filter P xs"
  by (induction xs arbitrary: acc0) auto

lemma checkRouteForIncidents_filter:
  "checkRouteForIncidents rc incidents r =
     filter (\<lambda>incident. js_le (minDistanceToIncident rc incident) r) incidents"
  by (simp add: checkRouteForIncidents_def foldl_push_filter near_iff_some_point
      pointWithinThreshold_iff)

section \<open>Properties\<close>

text \<open>
  C1. A high-credibility incident whose minimum distance \<open>d\<close> to the route's points is
  at most 600 m adds its gradient penalty to the cost: 500000 when \<open>d \<le> 200\<close> (so also at
  exactly 200 m), 250000 when \<open>200 < d \<le> 400\<close>, and 100000 when \<open>400 < d \<le> 600\<close>.
  The incident may stand anywhere in the list; ids are unique, as the data model has them.
\<close>

theorem high_credibility_gradient_penalty:
  assumes "credibility incident = high"
    and "minDistanceToIncident routeCoordinates incident = Finite d"
    and "d \<le> 600"
    and "inc_id incident \<notin> inc_id ` set (pre @ post)"
  shows "calculateRouteCost routeCoordinates D T (pre @ incident # post) =
         calculateRouteCost routeCoordinates D T (pre @ post)
           + (if d \<le> 200 then 500000 else if d \<le> 400 then 250000 else 100000)"
proof -
  have near: "js_le (minDistanceToIncident routeCoordinates incident) INCIDENT_DETECTION_RADIUS"
    using assms(2,3) by (simp add: INCIDENT_DETECTION_RADIUS_def)
  have "incidentWeight incident (minDistanceToIncident routeCoordinates incident) =
        (if d \<le> 200 then 500000 else if d \<le> 400 then 250000 else 100000)"
    using assms(1,2,3)
    by (simp add: incidentWeight_def innerZone_def middleZone_def outerZone_def)
  with calculateRouteCost_insert_near [OF near assms(4), of D T] show ?thesis
    by simp
qed

text \<open>One incident in each of the three zones, on a route of 1000 m and 120 s.\<close>

theorem high_credibility_gradient_penalty_witness:
  "calculateRouteCost [(0, 0)] 1000 120 [incident_at ''a'' 0 high] = 501120 \<and>
   calculateRouteCost [(0, 0)] 1000 120 [incident_at ''a'' 0.002 high] = 251120 \<and>
   calculateRouteCost [(0, 0)] 1000 120 [incident_at ''a'' 0.004 high] = 101120"
proof -
  have base: "calculateRouteCost [(0, 0)] 1000 120 ([] @ []) = 1120"
    by (simp add: calculateRouteCost_def)
  have hi: "credibility (incident_at ''a'' la high) = high" for la
    by (simp add: incident_at_def)
  have fresh: "inc_id (incident_at ''a'' la high) \<notin> inc_id ` set ([] @ [])" for la
    by simp
  have m: "minDistanceToIncident [(0, 0)] (incident_at ''a'' la high)
             = Finite (6371000 * (\<bar>la\<bar> * pi / 180))" if "\<bar>la\<bar> < 180" for la
    using that by (simp add: minDistance_single_point distance_origin_incident_at)
  have m0: "minDistanceToIncident [(0, 0)] (incident_at ''a'' 0 high) = Finite 0"
    using m [of 0] by simp
  have m2: "minDistanceToIncident [(0, 0)] (incident_at ''a'' 0.002 high)
             = Finite (6371000 * (\<bar>0.002\<bar> * pi / 180))"
    by (rule m) simp
  have m4: "minDistanceToIncident [(0, 0)] (incident_at ''a'' 0.004 high)
             = Finite (6371000 * (\<bar>0.004\<bar> * pi / 180))"
    by (rule m) simp
  have "calculateRouteCost [(0, 0)] 1000 120 ([] @ incident_at ''a'' 0 high # []) = 501120"
    using high_credibility_gradient_penalty [OF hi m0 _ fresh, of 1000 120] base by simp
  moreover
  have "calculateRouteCost [(0, 0)] 1000 120 ([] @ incident_at ''a'' 0.002 high # []) = 251120"
    using high_credibility_gradient_penalty [OF hi m2 _ fresh, of 1000 120] base metres_0002
    by simp
  moreover
  have "calculateRouteCost [(0, 0)] 1000 120 ([] @ incident_at ''a'' 0.004 high # []) = 101120"
    using high_credibility_gradient_penalty [OF hi m4 _ fresh, of 1000 120] base metres_0004
    by simp
  ultimately show ?thesis by simp
qed

text \<open>
  C2. With no incidents the cost of a route is its distance plus its duration, for every
  coordinate sequence, distance and duration.
\<close>

theorem calculateRouteCost_no_incidents:
  "calculateRouteCost routeCoordinates D T [] = D + T"
  by (simp add: calculateRouteCost_def)

text \<open>
  C3. The cost of a route is never below its distance plus its duration, for every
  coordinate sequence and every list of incidents: each iteration either leaves the cost
  or adds a weight, and every weight is non-negative.
\<close>

theorem calculateRouteCost_ge_base:
  "D + T \<le> calculateRouteCost routeCoordinates D T incidents"
  using foldl_costStep_cost_mono
    [of "\<lparr>cost = D + T, incidentsNearRoute = {}\<rparr>" routeCoordinates incidents]
  by (simp add: calculateRouteCost_def)

text \<open>
  C4. In one evaluation every incident id is charged at most once, whatever the route's
  points are: the cost is the base cost plus the weights of the penalties charged, the ids
  of the penalties charged are pairwise distinct, and each is the id of an incident of the
  list.
\<close>

theorem one_penalty_per_incident_id:
  "calculateRouteCost routeCoordinates D T incidents =
     D + T + sum_list (map snd (penaltyEvents routeCoordinates {} incidents))
   \<and> distinct (map fst (penaltyEvents routeCoordinates {} incidents))
   \<and> fst ` set (penaltyEvents routeCoordinates {} incidents) \<subseteq> inc_id ` set incidents"
proof -
  have "calculateRouteCost routeCoordinates D T incidents =
     D + T + sum_list (map snd (penaltyEvents routeCoordinates {} incidents))"
    using foldl_costStep_events
      [of routeCoordinates "\<lparr>cost = D + T, incidentsNearRoute = {}\<rparr>" incidents]
    by (simp add: calculateRouteCost_def)
  moreover have "fst ` set (penaltyEvents routeCoordinates {} incidents) \<subseteq> inc_id ` set incidents"
    using penaltyEvents_ids [of routeCoordinates "{}" incidents] by simp
  ultimately show ?thesis
    by (simp add: penaltyEvents_distinct)
qed

text \<open>
  An incident with two route points inside its radius, given twice: one penalty.
\<close>

theorem one_penalty_per_incident_id_witness:
  "penaltyEvents two_point_route {}
     [incident_at ''a'' 0 high, incident_at ''a'' 0 high] = [(''a'', 500000)]
   \<and> calculateRouteCost two_point_route 1000 120
        [incident_at ''a'' 0 high, incident_at ''a'' 0 high] = 501120"
proof -
  have ev: "penaltyEvents two_point_route {}
     [incident_at ''a'' 0 high, incident_at ''a'' 0 high] = [(''a'', 500000)]"
    by (simp add: minDistance_two_points_origin INCIDENT_DETECTION_RADIUS_def
        incidentWeight_def innerZone_def Let_def incident_at_sel)
  show ?thesis
    using one_penalty_per_incident_id
      [of "two_point_route" 1000 120 "[incident_at ''a'' 0 high, incident_at ''a'' 0 high]"]
    unfolding ev by simp
qed

text \<open>
  C5. An incident that is more than 600 m from every point of the route adds nothing to
  the cost, whatever its credibility and wherever it stands in the list.
\<close>

theorem incident_beyond_radius_no_penalty:
  assumes "\<forall>(lat, lng) \<in> set routeCoordinates.
             600 < calculateDistance lat lng (inc_lat incident) (inc_lng incident)"
  shows "calculateRouteCost routeCoordinates D T (pre @ incident # post) =
         calculateRouteCost routeCoordinates D T (pre @ post)"
proof -
  have "\<not> js_le (minDistanceToIncident routeCoordinates incident) INCIDENT_DETECTION_RADIUS"
    using assms by (auto simp: near_iff_some_point INCIDENT_DETECTION_RADIUS_def)
  then show ?thesis
    by (rule calculateRouteCost_insert_far)
qed

text \<open>An incident some 1112 m from the only route point, in each credibility tier.\<close>

theorem incident_beyond_radius_no_penalty_witness:
  "calculateRouteCost [(0, 0)] 1000 120 [incident_at ''a'' 0.01 high] = 1120 \<and>
   calculateRouteCost [(0, 0)] 1000 120 [incident_at ''a'' 0.01 medium] = 1120 \<and>
   calculateRouteCost [(0, 0)] 1000 120 [incident_at ''a'' 0.01 low] = 1120"
proof -
  have far: "\<forall>(lat, lng) \<in> set [(0, 0)].
      600 < calculateDistance lat lng (inc_lat (incident_at ''a'' 0.01 c))
              (inc_lng (incident_at ''a'' 0.01 c))" for c
    using metres_001 by (simp add: distance_origin_incident_at)
  have base: "calculateRouteCost [(0, 0)] 1000 120 ([] @ []) = 1120"
    by (simp add: calculateRouteCost_def)
  show ?thesis
    using incident_beyond_radius_no_penalty [OF far [of high], of 1000 120 "[]" "[]"]
      incident_beyond_radius_no_penalty [OF far [of medium], of 1000 120 "[]" "[]"]
      incident_beyond_radius_no_penalty [OF far [of low], of 1000 120 "[]" "[]"] base
    by simp
qed

text \<open>
  C6. Adding to a list of incidents an incident that is not in it (its id is new) and that
  is within the detection radius of the route never decreases the cost, at whichever position
  it is added.
\<close>

theorem adding_near_incident_never_decreases_cost:
  assumes "js_le (minDistanceToIncident routeCoordinates incident) INCIDENT_DETECTION_RADIUS"
    and "inc_id incident \<notin> inc_id ` set (pre @ post)"
  shows "calculateRouteCost routeCoordinates D T (pre @ post)
           \<le> calculateRouteCost routeCoordinates D T (pre @ incident # post)"
  using calculateRouteCost_insert_near [OF assms, of D T]
    incidentWeight_nonneg [of incident "minDistanceToIncident routeCoordinates incident"]
  by simp

theorem adding_near_incident_never_decreases_cost_witness:
  "js_le (minDistanceToIncident [(0, 0)] (incident_at ''a'' 0 high)) INCIDENT_DETECTION_RADIUS
   \<and> inc_id (incident_at ''a'' 0 high) \<notin> inc_id ` set ([] @ [incident_at ''b'' 0 low])
   \<and> calculateRouteCost [(0, 0)] 1000 120 [incident_at ''b'' 0 low]
       \<le> calculateRouteCost [(0, 0)] 1000 120 [incident_at ''a'' 0 high, incident_at ''b'' 0 low]"
proof -
  have near: "js_le (minDistanceToIncident [(0, 0)] (incident_at ''a'' 0 high))
                INCIDENT_DETECTION_RADIUS"
    by (simp add: minDistance_single_point incident_at_sel calculateDistance_same_point
        INCIDENT_DETECTION_RADIUS_def)
  have fresh: "inc_id (incident_at ''a'' 0 high) \<notin> inc_id ` set ([] @ [incident_at ''b'' 0 low])"
    by (simp add: incident_at_sel)
  show ?thesis
    using adding_near_incident_never_decreases_cost [OF near fresh, of 1000 120] near fresh
    by simp
qed

text \<open>
  C7. When Valhalla returns no route, \<^verbatim>\<open>getRoute\<close> sends the request to OSRM after it and
  returns OSRM's answer; and \<^verbatim>\<open>getRoute\<close> returns no route only when both providers
  return none.
\<close>

theorem getRoute_falls_back_to_OSRM:
  "(getValhallaRoute start end' mode = None \<longrightarrow>
      getRoute getValhallaRoute getOSRMRoute start end' mode incidents =
        (getOSRMRoute start end' mode,
         [ValhallaRequest start end' mode, OSRMRequest start end' mode]))
   \<and> (fst (getRoute getValhallaRoute getOSRMRoute start end' mode incidents) = None
        \<longleftrightarrow> getValhallaRoute start end' mode = None \<and> getOSRMRoute start end' mode = None)"
  by (simp add: getRoute_def split: option.split)

theorem getRoute_falls_back_to_OSRM_witness:
  "getRoute (\<lambda>_ _ _. None) (\<lambda>_ _ _. Some example_route) example_start example_end walking []
     = (Some example_route,
        [ValhallaRequest example_start example_end walking,
         OSRMRequest example_start example_end walking])
   \<and> fst (getRoute (\<lambda>_ _ _. None) (\<lambda>_ _ _. None) example_start example_end walking [])
       = None"
  using getRoute_falls_back_to_OSRM
      [of "\<lambda>_ _ _. None" example_start example_end walking "\<lambda>_ _ _. Some example_route" "[]"]
    getRoute_falls_back_to_OSRM
      [of "\<lambda>_ _ _. None" example_start example_end walking "\<lambda>_ _ _. None" "[]"]
  by simp

text \<open>
  C8. The result of \<^verbatim>\<open>getRoute\<close>, and the requests it sends, are the same for any two
  incident arrays: the incidents take no part in the choice of the returned route.
\<close>

theorem getRoute_ignores_incidents:
  "getRoute getValhallaRoute getOSRMRoute start end' mode incidents1 =
   getRoute getValhallaRoute getOSRMRoute start end' mode incidents2"
  by (simp add: getRoute_def)

text \<open>
  C9, as amended. \<^verbatim>\<open>checkRouteForIncidents\<close> returns, in their order, exactly the
  incidents whose minimum distance to the route's points is at most the threshold it is
  given, which is 400 m by default; credibility plays no part.
\<close>

theorem checkRouteForIncidents_selects_within_threshold:
  "checkRouteForIncidents routeCoordinates incidents thresholdMeters =
     filter (\<lambda>incident.
         js_le (minDistanceToIncident routeCoordinates incident) thresholdMeters) incidents
   \<and> checkRouteForIncidents_default routeCoordinates incidents =
     filter (\<lambda>incident. js_le (minDistanceToIncident routeCoordinates incident) 400) incidents"
  by (simp add: checkRouteForIncidents_default_def checkRouteForIncidents_filter)

text \<open>
  C9 as stated fails: a medium-credibility incident on the route is selected, also with a
  threshold of 600 m, and with the default threshold a high-credibility incident some 445 m
  from the route is not.
\<close>

theorem checkRouteForIncidents_not_high_within_600_counterexample:
  "checkRouteForIncidents [(0, 0)] [incident_at ''m'' 0 medium] 600 = [incident_at ''m'' 0 medium]
   \<and> spec_avoidanceTriggers [(0, 0)] [incident_at ''m'' 0 medium] = []
   \<and> checkRouteForIncidents_default [(0, 0)] [incident_at ''h'' 0.004 high] = []
   \<and> spec_avoidanceTriggers [(0, 0)] [incident_at ''h'' 0.004 high]
       = [incident_at ''h'' 0.004 high]"
proof -
  have m: "minDistanceToIncident [(0, 0)] (incident_at ''m'' 0 medium) = Finite 0"
    by (simp add: minDistance_single_point incident_at_sel calculateDistance_same_point)
  have 1: "checkRouteForIncidents [(0, 0)] [incident_at ''m'' 0 medium] 600
             = [incident_at ''m'' 0 medium]"
    unfolding checkRouteForIncidents_filter by (simp add: m)
  have 2: "spec_avoidanceTriggers [(0, 0)] [incident_at ''m'' 0 medium] = []"
    unfolding spec_avoidanceTriggers_def by (simp add: incident_at_sel)
  have 3: "checkRouteForIncidents_default [(0, 0)] [incident_at ''h'' 0.004 high] = []"
    unfolding checkRouteForIncidents_default_def checkRouteForIncidents_filter
    using metres_0004 by (simp add: minDistance_origin_incident_at)
  have 4: "spec_avoidanceTriggers [(0, 0)] [incident_at ''h'' 0.004 high]
             = [incident_at ''h'' 0.004 high]"
    unfolding spec_avoidanceTriggers_def
    using metres_0004 by (simp add: minDistance_origin_incident_at incident_at_sel)
  show ?thesis
    using 1 2 3 4 by (simp only:)
qed

text \<open>
  C10. The exported haversine distance of the GPS utilities and the private one of the
  routing service return the same value on all latitude/longitude arguments.
\<close>

theorem calculateDistance_implementations_agree:
  "gps_calculateDistance lat1 lng1 lat2 lng2 = calculateDistance lat1 lng1 lat2 lng2"
  unfolding gps_calculateDistance_def calculateDistance_def by (rule refl)

end
